theory Spec2Isabelle
  imports Main "HOL-Library.Multiset"
begin

section \<open>Strings\<close>

text \<open>
  A Python \<open>str\<close> is modelled as a \<open>string\<close>; one \<open>char\<close> stands for one code point
  below 256. \<open>is_space\<close> is the set recognised by \<open>str.isspace\<close>, by \<open>str.strip()\<close> and
  by the regular expression class \<open>\s\<close> within that range: the code points 9 to 13,
  28 to 32, 133 and 160.
\<close>

definition is_space :: "char \<Rightarrow> bool" where
  "is_space c = (c \<in> set [CHR 0x09, CHR 0x0A, CHR 0x0B, CHR 0x0C, CHR 0x0D,
                            CHR 0x1C, CHR 0x1D, CHR 0x1E, CHR 0x1F, CHR 0x20,
                            CHR 0x85, CHR 0xA0])"

definition squote :: char where
  "squote = CHR 0x27"

definition dquote :: char where
  "dquote = CHR 0x22"

definition newline :: char where
  "newline = CHR 0x0A"

text \<open>\<open>text[a:b]\<close> for \<open>0 \<le> a \<le> b \<le> len(text)\<close>.\<close>

definition slice :: "string \<Rightarrow> nat \<Rightarrow> nat \<Rightarrow> string" where
  "slice text a b = take (b - a) (drop a text)"

section \<open>The regular expressions of \<open>re\<close> that the program uses\<close>

text \<open>
  The two patterns of \<open>resumegen.py\<close> are built from single characters, character
  classes, the greedy quantifiers \<open>*\<close> and \<open>+\<close> and the lazy quantifier \<open>*?\<close> on a
  character class, concatenation and numbered groups. The matcher is the backtracking
  matcher of \<open>re\<close>: \<open>rx_match r s cs\<close> lists every way in which \<open>r\<close> matches a prefix of
  \<open>s\<close>, as the unread rest of \<open>s\<close> and the groups captured, in the order in which the
  backtracking search tries them. The match that \<open>re\<close> reports is the first of the list.
\<close>

datatype cclass =
    Lit char              \<comment> \<open>a literal character\<close>
  | OneOf "char list"     \<comment> \<open>\<open>[...]\<close>\<close>
  | NotOf "char list"     \<comment> \<open>\<open>[^...]\<close>\<close>
  | AnyChar               \<comment> \<open>\<open>.\<close>: any character but the newline\<close>
  | Whitespace            \<comment> \<open>\<open>\s\<close>\<close>

fun in_class :: "cclass \<Rightarrow> char \<Rightarrow> bool" where
  "in_class (Lit c) x = (x = c)"
| "in_class (OneOf cs) x = (x \<in> set cs)"
| "in_class (NotOf cs) x = (x \<notin> set cs)"
| "in_class AnyChar x = (x \<noteq> newline)"
| "in_class Whitespace x = is_space x"

datatype regex =
    Eps
  | Atom cclass
  | Star cclass           \<comment> \<open>\<open>c*\<close>, greedy\<close>
  | Plus cclass           \<comment> \<open>\<open>c+\<close>, greedy\<close>
  | LazyStar cclass       \<comment> \<open>\<open>c*?\<close>\<close>
  | Seq regex regex
  | Group nat regex       \<comment> \<open>\<open>(r)\<close>, with the number of the group\<close>

type_synonym captures = "(nat \<times> string) list"

text \<open>The rests left by \<open>c*\<close>: the longest repetition is tried first.\<close>

fun star_greedy :: "cclass \<Rightarrow> string \<Rightarrow> string list" where
  "star_greedy c [] = [[]]"
| "star_greedy c (x # xs) =
     (if in_class c x then star_greedy c xs @ [x # xs] else [x # xs])"

text \<open>The rests left by \<open>c*?\<close>: the shortest repetition is tried first.\<close>

fun star_lazy :: "cclass \<Rightarrow> string \<Rightarrow> string list" where
  "star_lazy c [] = [[]]"
| "star_lazy c (x # xs) =
     (x # xs) # (if in_class c x then star_lazy c xs else [])"

fun rx_match :: "regex \<Rightarrow> string \<Rightarrow> captures \<Rightarrow> (string \<times> captures) list" where
  "rx_match Eps s cs = [(s, cs)]"
| "rx_match (Atom c) s cs =
     (case s of [] \<Rightarrow> [] | x # xs \<Rightarrow> if in_class c x then [(xs, cs)] else [])"
| "rx_match (Star c) s cs = map (\<lambda>rest. (rest, cs)) (star_greedy c s)"
| "rx_match (Plus c) s cs =
     (case s of [] \<Rightarrow> []
      | x # xs \<Rightarrow> if in_class c x then map (\<lambda>rest. (rest, cs)) (star_greedy c xs) else [])"
| "rx_match (LazyStar c) s cs = map (\<lambda>rest. (rest, cs)) (star_lazy c s)"
| "rx_match (Seq r1 r2) s cs =
     concat (map (\<lambda>(rest, cs'). rx_match r2 rest cs') (rx_match r1 s cs))"
| "rx_match (Group n r) s cs =
     map (\<lambda>(rest, cs'). (rest, (n, take (length s - length rest) s) # cs')) (rx_match r s cs)"

fun seqs :: "regex list \<Rightarrow> regex" where
  "seqs [] = Eps"
| "seqs [r] = r"
| "seqs (r # rs) = Seq r (seqs rs)"

definition lits :: "string \<Rightarrow> regex" where
  "lits s = seqs (map (\<lambda>c. Atom (Lit c)) s)"

text \<open>A match object: \<open>match.span()\<close> and the groups.\<close>

record re_match =
  m_start :: nat
  m_end :: nat
  m_groups :: captures

text \<open>
  \<open>match.group(n)\<close>. In both patterns of the program every group lies on the only path
  through the pattern, so a match always has it (lemma \<open>finditer_groups\<close> below).
\<close>

definition group :: "re_match \<Rightarrow> nat \<Rightarrow> string" where
  "group mt n = (case map_of (m_groups mt) n of Some g \<Rightarrow> g | None \<Rightarrow> [])"

text \<open>
  \<open>pattern.search\<close> on the rest \<open>s\<close> of the text, whose first character has index \<open>pos\<close>:
  the leftmost position at which the pattern matches, with the first match there.
\<close>

fun search :: "regex \<Rightarrow> string \<Rightarrow> nat \<Rightarrow> (re_match \<times> string) option" where
  "search r s pos =
     (case rx_match r s [] of
        (rest, cs) # _ \<Rightarrow>
          Some (\<lparr>m_start = pos, m_end = pos + (length s - length rest), m_groups = cs\<rparr>, rest)
      | [] \<Rightarrow> (case s of [] \<Rightarrow> None | _ # s' \<Rightarrow> search r s' (Suc pos)))"

text \<open>
  \<open>re.finditer\<close>: the matches from left to right, each search starting where the last
  match ended. Both patterns of the program begin with the two characters \<open><a\<close>, so a
  match is never empty and the search always moves on (lemma \<open>finditer_unfold\<close> below);
  the test on the lengths only serves the termination proof.
\<close>

function finditer :: "regex \<Rightarrow> string \<Rightarrow> nat \<Rightarrow> re_match list" where
  "finditer r s pos =
     (case search r s pos of
        None \<Rightarrow> []
      | Some (mt, rest) \<Rightarrow>
          if length rest < length s then mt # finditer r rest (m_end mt) else [mt])"
  by pat_completeness auto
termination
  by (relation "measure (\<lambda>(r, s, pos). length s)") auto

declare finditer.simps [simp del]

text \<open>The least number of characters a match consumes, and the groups every match has.\<close>

fun min_len :: "regex \<Rightarrow> nat" where
  "min_len Eps = 0"
| "min_len (Atom c) = 1"
| "min_len (Star c) = 0"
| "min_len (Plus c) = 1"
| "min_len (LazyStar c) = 0"
| "min_len (Seq r1 r2) = min_len r1 + min_len r2"
| "min_len (Group n r) = min_len r"

fun groups_of :: "regex \<Rightarrow> nat set" where
  "groups_of (Seq r1 r2) = groups_of r1 \<union> groups_of r2"
| "groups_of (Group n r) = insert n (groups_of r)"
| "groups_of r = {}"

section \<open>Inline markup: \<open>resumegen.py\<close>\<close>

text \<open>The pattern \<open><a\s+[^>]*href=['"](.*?)['"][^>]*>(.*?)</a>\<close>.\<close>

definition href_pattern :: regex where
  "href_pattern = seqs
     [lits ''<a'', Plus Whitespace, Star (NotOf ''>''), lits ''href='',
      Atom (OneOf [squote, dquote]), Group 1 (LazyStar AnyChar),
      Atom (OneOf [squote, dquote]), Star (NotOf ''>''), Atom (Lit CHR ''>''),
      Group 2 (LazyStar AnyChar), lits ''</a>'']"

text \<open>The pattern \<open><a\s+[^>]*>(.*?)</a>\<close>.\<close>

definition tag_pattern :: regex where
  "tag_pattern = seqs
     [lits ''<a'', Plus Whitespace, Star (NotOf ''>''), Atom (Lit CHR ''>''),
      Group 1 (LazyStar AnyChar), lits ''</a>'']"

text \<open>
  A run of a paragraph: \<open>paragraph.add_run(text)\<close> is \<open>Plain text\<close>, and
  \<open>add_hyperlink(paragraph, text, url)\<close> is \<open>Hyperlink text url\<close>.
\<close>

datatype run = Plain string | Hyperlink string string

text \<open>
  \<open>process_text_with_hyperlinks\<close>: the runs added to the paragraph. The state of the loop
  is the runs added so far and \<open>last_pos\<close>.
\<close>

definition hyperlink_step :: "string \<Rightarrow> re_match \<Rightarrow> run list \<times> nat \<Rightarrow> run list \<times> nat" where
  "hyperlink_step text mt st =
     (case st of (runs, last_pos) \<Rightarrow>
        let runs1 = (if m_start mt > last_pos
                     then runs @ [Plain (slice text last_pos (m_start mt))] else runs)
        in (runs1 @ [Hyperlink (group mt 2) (group mt 1)], m_end mt))"

definition process_text_with_hyperlinks :: "string \<Rightarrow> run list" where
  "process_text_with_hyperlinks text =
     (case fold (hyperlink_step text) (finditer href_pattern text 0) ([], 0) of
        (runs, last_pos) \<Rightarrow>
          if last_pos < length text then runs @ [Plain (drop last_pos text)] else runs)"

text \<open>
  \<open>re.sub(pattern, r'\1', text)\<close>: every match is replaced by its group 1, the text
  between the matches is kept.
\<close>

definition sub_step :: "string \<Rightarrow> re_match \<Rightarrow> string \<times> nat \<Rightarrow> string \<times> nat" where
  "sub_step text mt st =
     (case st of (out, last_pos) \<Rightarrow>
        (out @ slice text last_pos (m_start mt) @ group mt 1, m_end mt))"

definition re_sub_group1 :: "regex \<Rightarrow> string \<Rightarrow> string" where
  "re_sub_group1 r text =
     (case fold (sub_step text) (finditer r text 0) ([], 0) of
        (out, last_pos) \<Rightarrow> out @ drop last_pos text)"

definition remove_hyperlink :: "string \<Rightarrow> string" where
  "remove_hyperlink text = re_sub_group1 tag_pattern text"

section \<open>The resume: \<open>ResumeGen.generate_resume\<close>\<close>

text \<open>
  The payload is the parsed JSON. An object is a record with one field for each key the
  code reads; the field is \<open>None\<close> when the key is absent. The values have the types of
  the documented schema: strings, integer ids, lists.
\<close>

datatype error = KeyError string | ValueError string | IndexError

record resume_entry =
  e_id :: "int option"
  e_position :: "string option"
  e_date :: "string option"
  e_items :: "string list option"

record resume_section =
  s_id :: "int option"
  s_title :: "string option"
  s_content :: "resume_entry list option"

record resume_header =
  h_name :: "string option"
  h_title :: "string option"

record resume_data =
  r_header :: "resume_header option"
  r_contents :: "resume_section list option"

text \<open>\<open>d[k]\<close> on a dict: a missing key raises \<open>KeyError\<close>.\<close>

definition getitem :: "string \<Rightarrow> 'a option \<Rightarrow> error + 'a" where
  "getitem k v = (case v of None \<Rightarrow> Inl (KeyError k) | Some x \<Rightarrow> Inr x)"

text \<open>
  The document: \<open>doc.add_heading(text, level)\<close> and \<open>doc.add_paragraph(style=...)\<close> with
  the runs added to the paragraph afterwards.
\<close>

datatype node = Heading nat string | Paragraph string "run list"

text \<open>
  \<open>sorted(xs, key=..., reverse=...)\<close>. The keys of all elements are computed first, in
  the order of the list, so the first failing key raises. The sort is stable; with
  \<open>reverse=True\<close> the list is reversed, sorted and reversed again, which keeps the
  elements of equal key in their input order.
\<close>

fun decorate :: "('a \<Rightarrow> error + int) \<Rightarrow> 'a list \<Rightarrow> error + (int \<times> 'a) list" where
  "decorate key [] = Inr []"
| "decorate key (x # xs) =
     (case key x of
        Inl e \<Rightarrow> Inl e
      | Inr k \<Rightarrow> (case decorate key xs of Inl e \<Rightarrow> Inl e | Inr kxs \<Rightarrow> Inr ((k, x) # kxs)))"

definition sorted_py :: "('a \<Rightarrow> error + int) \<Rightarrow> bool \<Rightarrow> 'a list \<Rightarrow> error + 'a list" where
  "sorted_py key reverse xs =
     (case decorate key xs of
        Inl e \<Rightarrow> Inl e
      | Inr kxs \<Rightarrow>
          Inr (map snd (if reverse then rev (sort_key fst (rev kxs)) else sort_key fst kxs)))"

text \<open>A \<open>for\<close> loop whose body may raise: the first exception ends the loop.\<close>

fun for_each :: "('a \<Rightarrow> 's \<Rightarrow> error + 's) \<Rightarrow> 'a list \<Rightarrow> 's \<Rightarrow> error + 's" where
  "for_each body [] st = Inr st"
| "for_each body (x # xs) st =
     (case body x st of Inl e \<Rightarrow> Inl e | Inr st' \<Rightarrow> for_each body xs st')"

text \<open>Lines 98 and 101: the two calls of \<open>sorted\<close>.\<close>

definition sort_contents :: "resume_section list \<Rightarrow> error + resume_section list" where
  "sort_contents contents = sorted_py (\<lambda>x. getitem ''id'' (s_id x)) True contents"

definition sort_items :: "resume_entry list \<Rightarrow> error + resume_entry list" where
  "sort_items content = sorted_py (\<lambda>x. getitem ''id'' (e_id x)) True content"

text \<open>Lines 110 to 112: one bullet paragraph.\<close>

definition add_bullet :: "string \<Rightarrow> node list \<Rightarrow> node list" where
  "add_bullet bullet_item doc =
     doc @ [Paragraph ''List Bullet'' (process_text_with_hyperlinks bullet_item)]"

text \<open>Lines 103 to 112: the body of the loop over the entries of a section.\<close>

definition render_item :: "resume_entry \<Rightarrow> node list \<Rightarrow> error + node list" where
  "render_item item doc =
     (case getitem ''position'' (e_position item) of
        Inl e \<Rightarrow> Inl e
      | Inr position \<Rightarrow>
          (case (if position \<noteq> []
                 then (case getitem ''date'' (e_date item) of
                         Inl e \<Rightarrow> Inl e
                       | Inr date \<Rightarrow>
                           let heading = remove_hyperlink position;
                               heading = (if date \<noteq> [] then heading @ '' - ('' @ date @ '')''
                                          else heading)
                           in Inr (doc @ [Heading 2 heading]))
                 else Inr doc) of
             Inl e \<Rightarrow> Inl e
           | Inr doc1 \<Rightarrow>
               (case getitem ''items'' (e_items item) of
                  Inl e \<Rightarrow> Inl e
                | Inr bullets \<Rightarrow> Inr (fold add_bullet bullets doc1))))"

text \<open>Lines 100 to 112: the body of the loop over the sections.\<close>

definition render_section :: "resume_section \<Rightarrow> node list \<Rightarrow> error + node list" where
  "render_section datum doc =
     (case getitem ''title'' (s_title datum) of
        Inl e \<Rightarrow> Inl e
      | Inr title \<Rightarrow>
          (case getitem ''content'' (s_content datum) of
             Inl e \<Rightarrow> Inl e
           | Inr content \<Rightarrow>
               (case sort_items content of
                  Inl e \<Rightarrow> Inl e
                | Inr items \<Rightarrow> for_each render_item items (doc @ [Heading 1 title]))))"

text \<open>
  Lines 94 to 112: the document is built in \<open>self.doc\<close>, here \<open>doc\<close>. An exception leaves
  the function, and the nodes added before it are not used again.
\<close>

definition build_document :: "resume_data \<Rightarrow> node list \<Rightarrow> error + node list" where
  "build_document resume_data doc =
     (case getitem ''header'' (r_header resume_data) of
        Inl e \<Rightarrow> Inl e
      | Inr hd1 \<Rightarrow>
          (case getitem ''name'' (h_name hd1) of
             Inl e \<Rightarrow> Inl e
           | Inr name \<Rightarrow>
               (case getitem ''title'' (h_title hd1) of
                  Inl e \<Rightarrow> Inl e
                | Inr title \<Rightarrow>
                    (case getitem ''contents'' (r_contents resume_data) of
                       Inl e \<Rightarrow> Inl e
                     | Inr contents \<Rightarrow>
                         (case sort_contents contents of
                            Inl e \<Rightarrow> Inl e
                          | Inr sections \<Rightarrow>
                              for_each render_section sections
                                (doc @ [Heading 0 name, Heading 3 title]))))))"

text \<open>
  The files on disk: a path is bound to the document saved there. \<open>generate_resume\<close>
  saves after the loops; the \<open>except\<close> clause logs and raises again.
\<close>

type_synonym 'd files = "string \<rightharpoonup> 'd"

definition generate_resume ::
  "node list \<Rightarrow> resume_data \<Rightarrow> string \<Rightarrow> node list files \<Rightarrow> (error + node list) \<times> node list files"
where
  "generate_resume doc resume_data output_file fs =
     (case build_document resume_data doc of
        Inl e \<Rightarrow> (Inl e, fs)
      | Inr doc' \<Rightarrow> (Inr doc', fs(output_file \<mapsto> doc')))"

section \<open>The cover letter: \<open>cover_letter.py\<close>\<close>

text \<open>
  \<open>s.replace(old, new)\<close>: the occurrences of \<open>old\<close> are replaced from left to right,
  without overlap. With an empty \<open>old\<close>, \<open>new\<close> is put before every character and at the
  end.
\<close>

function str_replace :: "string \<Rightarrow> string \<Rightarrow> string \<Rightarrow> string" where
  "str_replace old new s =
     (if old = [] then new @ concat (map (\<lambda>c. c # new) s)
      else if s = [] then []
      else if take (length old) s = old then new @ str_replace old new (drop (length old) s)
      else hd s # str_replace old new (tl s))"
  by pat_completeness auto
termination
  by (relation "measure (\<lambda>(old, new, s). length s)") (auto simp add: Suc_le_eq)

declare str_replace.simps [simp del]

text \<open>\<open>s.split(sep)\<close> for a separator of one character.\<close>

fun split :: "char \<Rightarrow> string \<Rightarrow> string list" where
  "split sep [] = [[]]"
| "split sep (x # xs) =
     (if x = sep then [] # split sep xs
      else (case split sep xs of
              [] \<Rightarrow> [[x]]
            | l # ls \<Rightarrow> (x # l) # ls))"

text \<open>\<open>s.strip()\<close>.\<close>

definition strip :: "string \<Rightarrow> string" where
  "strip s = rev (dropWhile is_space (rev (dropWhile is_space s)))"

text \<open>
  \<open>xs.index(x)\<close>: the first index of \<open>x\<close>, or \<open>ValueError\<close>. The text of the message
  depends on the version of Python.
\<close>

fun index :: "'a list \<Rightarrow> 'a \<Rightarrow> error + nat" where
  "index [] x = Inl (ValueError ''list.index(x): x not in list'')"
| "index (y # ys) x =
     (if y = x then Inr 0
      else (case index ys x of Inl e \<Rightarrow> Inl e | Inr i \<Rightarrow> Inr (Suc i)))"

text \<open>\<open>xs[i]\<close> on a list: a negative index counts from the end.\<close>

definition list_getitem :: "'a list \<Rightarrow> int \<Rightarrow> error + 'a" where
  "list_getitem xs i =
     (if 0 \<le> i \<and> i < int (length xs) then Inr (xs ! nat i)
      else if i < 0 \<and> - int (length xs) \<le> i then Inr (xs ! nat (int (length xs) + i))
      else Inl IndexError)"

text \<open>
  The dict \<open>data\<close>: its items in insertion order, every key once. \<open>data[k]\<close> raises
  \<open>KeyError\<close> on a missing key.
\<close>

type_synonym dict = "(string \<times> string) list"

definition dict_get :: "dict \<Rightarrow> string \<Rightarrow> error + string" where
  "dict_get d k = (case map_of d k of None \<Rightarrow> Inl (KeyError k) | Some v \<Rightarrow> Inr v)"

text \<open>Lines 61 to 64: the placeholders are replaced key by key.\<close>

definition substitute :: "dict \<Rightarrow> string \<Rightarrow> string" where
  "substitute data template =
     fold (\<lambda>(key, value) letter_content. str_replace (CHR ''$'' # key) value letter_content)
       data template"

text \<open>
  A paragraph of the letter: its text, its style and the two spacing attributes that the
  code sets, in points. \<open>p_role\<close> names the branch of the \<open>if\<close>/\<open>elif\<close> chain that added the
  paragraph.
\<close>

datatype role = Salutation | Closing | SignatureName | HeaderLine | Body

record cl_paragraph =
  p_text :: string
  p_style :: string
  p_role :: role
  space_before :: "nat option"
  space_after :: "nat option"

text \<open>
  Line 81: \<open>line == data['name'] and lines[lines.index(line) - 1].strip() == 'Sincerely,'\<close>.
  \<open>line\<close> is the stripped line; \<open>lines\<close> holds the lines as they were split.
\<close>

definition is_signature :: "dict \<Rightarrow> string list \<Rightarrow> string \<Rightarrow> error + bool" where
  "is_signature data lines line =
     (case dict_get data ''name'' of
        Inl e \<Rightarrow> Inl e
      | Inr name \<Rightarrow>
          if line = name
          then (case index lines line of
                  Inl e \<Rightarrow> Inl e
                | Inr i \<Rightarrow>
                    (case list_getitem lines (int i - 1) of
                       Inl e \<Rightarrow> Inl e
                     | Inr prev \<Rightarrow> Inr (strip prev = ''Sincerely,'')))
          else Inr False)"

text \<open>Line 88: the list of the header lines.\<close>

definition header_lines :: "dict \<Rightarrow> error + string list" where
  "header_lines data =
     (case dict_get data ''name'' of
        Inl e \<Rightarrow> Inl e
      | Inr name \<Rightarrow>
          (case dict_get data ''address'' of
             Inl e \<Rightarrow> Inl e
           | Inr address \<Rightarrow>
               (case dict_get data ''phone'' of
                  Inl e \<Rightarrow> Inl e
                | Inr phone \<Rightarrow>
                    (case dict_get data ''email'' of
                       Inl e \<Rightarrow> Inl e
                     | Inr email \<Rightarrow>
                         (case dict_get data ''date'' of
                            Inl e \<Rightarrow> Inl e
                          | Inr date \<Rightarrow> Inr [name, address, phone @ '' | '' @ email, date])))))"

text \<open>Lines 69 to 92: the body of the loop over the lines.\<close>

definition add_line :: "dict \<Rightarrow> string list \<Rightarrow> string \<Rightarrow> cl_paragraph list \<Rightarrow> error + cl_paragraph list"
where
  "add_line data lines raw doc =
     (let line = strip raw in
      if line = [] then Inr doc
      else if line = ''Dear Hiring Manager,''
      then Inr (doc @ [\<lparr>p_text = line, p_style = ''Normal'', p_role = Salutation,
                         space_before = None, space_after = None\<rparr>])
      else if line = ''Sincerely,''
      then Inr (doc @ [\<lparr>p_text = line, p_style = ''Normal'', p_role = Closing,
                         space_before = Some 12, space_after = None\<rparr>])
      else (case is_signature data lines line of
              Inl e \<Rightarrow> Inl e
            | Inr True \<Rightarrow>
                Inr (doc @ [\<lparr>p_text = line, p_style = ''Normal'', p_role = SignatureName,
                              space_before = None, space_after = None\<rparr>])
            | Inr False \<Rightarrow>
                (case header_lines data of
                   Inl e \<Rightarrow> Inl e
                 | Inr hs \<Rightarrow>
                     if line \<in> set hs
                     then Inr (doc @ [\<lparr>p_text = line, p_style = ''Normal'', p_role = HeaderLine,
                                        space_before = None, space_after = Some 6\<rparr>])
                     else Inr (doc @ [\<lparr>p_text = line, p_style = ''Normal'', p_role = Body,
                                        space_before = Some 12, space_after = Some 12\<rparr>]))))"

text \<open>Lines 45 to 92: the document of the letter, which starts empty.\<close>

definition build_letter :: "dict \<Rightarrow> string \<Rightarrow> error + cl_paragraph list" where
  "build_letter data template =
     (let lines = split newline (substitute data template)
      in for_each (add_line data lines) lines [])"

definition create_cover_letter ::
  "dict \<Rightarrow> string \<Rightarrow> string \<Rightarrow> cl_paragraph list files \<Rightarrow> (error + unit) \<times> cl_paragraph list files"
where
  "create_cover_letter data template output_file fs =
     (case build_letter data template of
        Inl e \<Rightarrow> (Inl e, fs)
      | Inr doc \<Rightarrow> (Inr (), fs(output_file \<mapsto> doc)))"

text \<open>Lines 151 to 154 of \<open>main\<close>: the check of the header.\<close>

definition required_fields :: "string list" where
  "required_fields = [''name'', ''phone'', ''email'', ''address'']"

definition missing_message :: "string \<Rightarrow> string" where
  "missing_message field =
     ''Missing or empty field '' @ [squote] @ field @ [squote] @ '' in JSON header''"

fun validate_header :: "dict \<Rightarrow> string list \<Rightarrow> error + unit" where
  "validate_header header [] = Inr ()"
| "validate_header header (field # others) =
     (case map_of header field of
        None \<Rightarrow> Inl (ValueError (missing_message field))
      | Some v \<Rightarrow>
          if v = [] then Inl (ValueError (missing_message field))
          else validate_header header others)"

text \<open>Lines 157 to 165 of \<open>main\<close>: the dict literal, with the date of the day as \<open>date\<close>.\<close>

definition make_data :: "dict \<Rightarrow> string \<Rightarrow> string \<Rightarrow> string \<Rightarrow> error + dict" where
  "make_data header date position company =
     (case dict_get header ''name'' of
        Inl e \<Rightarrow> Inl e
      | Inr name \<Rightarrow>
          (case dict_get header ''address'' of
             Inl e \<Rightarrow> Inl e
           | Inr address \<Rightarrow>
               (case dict_get header ''phone'' of
                  Inl e \<Rightarrow> Inl e
                | Inr phone \<Rightarrow>
                    (case dict_get header ''email'' of
                       Inl e \<Rightarrow> Inl e
                     | Inr email \<Rightarrow>
                         Inr [(''name'', name), (''address'', address), (''phone'', phone),
                              (''email'', email), (''date'', date), (''position'', position),
                              (''company'', company)]))))"

text \<open>
  Lines 148 to 171 of \<open>main\<close>, from the loaded template and JSON on. \<open>json_header\<close> is
  the value of the key \<open>header\<close> of the JSON, \<open>None\<close> when the key is absent. An error
  stands for the exception that \<open>main\<close> logs before it exits with status 1.
\<close>

definition cover_letter_main ::
  "string \<Rightarrow> dict option \<Rightarrow> string \<Rightarrow> string \<Rightarrow> string \<Rightarrow> string \<Rightarrow> cl_paragraph list files
     \<Rightarrow> (error + unit) \<times> cl_paragraph list files"
where
  "cover_letter_main template json_header position company date output_file fs =
     (let header = (case json_header of None \<Rightarrow> [] | Some h \<Rightarrow> h) in
      case validate_header header required_fields of
        Inl e \<Rightarrow> (Inl e, fs)
      | Inr _ \<Rightarrow>
          (case make_data header date position company of
             Inl e \<Rightarrow> (Inl e, fs)
           | Inr data \<Rightarrow> create_cover_letter data template output_file fs))"

section \<open>Notions used to state the properties\<close>

text \<open>The text that a run shows.\<close>

fun run_text :: "run \<Rightarrow> string" where
  "run_text (Plain s) = s"
| "run_text (Hyperlink label url) = label"

text \<open>The text holds the two characters \<open><a\<close> somewhere.\<close>

fun has_open_tag :: "string \<Rightarrow> bool" where
  "has_open_tag [] = False"
| "has_open_tag (x # xs) = (take 2 (x # xs) = ''<a'' \<or> has_open_tag xs)"

text \<open>
  The order of presentation in the words of the specification: a stable sort by
  descending id. It is the insertion sort of the library on the negated id, under which
  elements of equal id keep their input order.
\<close>

definition by_id_desc :: "('a \<Rightarrow> int) \<Rightarrow> 'a list \<Rightarrow> 'a list" where
  "by_id_desc f xs = sort_key (\<lambda>x. - f x) xs"








text \<open>An entry on which the body of the loop raises: a key that the body reads is absent.\<close>

definition entry_raises :: "resume_entry \<Rightarrow> bool" where
  "entry_raises e =
     (e_position e = None \<or> e_items e = None \<or>
      (e_date e = None \<and> e_position e \<noteq> Some []))"

text \<open>A required field of the header that is absent or empty.\<close>

definition missing_or_empty :: "dict \<Rightarrow> string \<Rightarrow> bool" where
  "missing_or_empty header field =
     (case map_of header field of None \<Rightarrow> True | Some v \<Rightarrow> v = [])"

text \<open>The message holds the word somewhere.\<close>

fun mentions :: "string \<Rightarrow> string \<Rightarrow> bool" where
  "mentions [] w = (w = [])"
| "mentions (c # cs) w = (take (length w) (c # cs) = w \<or> mentions cs w)"

text \<open>
  The template \<open>Dear Hiring Manager,\n\n$name\n\nSincerely,\n$name\<close> and the dict that
  \<open>main\<close> builds for the name \<open>Ann\<close>.
\<close>

definition ann_template :: string where
  "ann_template =
     ''Dear Hiring Manager,'' @ [newline, newline] @ ''$name'' @ [newline, newline] @
     ''Sincerely,'' @ [newline] @ ''$name''"

definition ann_data :: "string \<Rightarrow> string \<Rightarrow> string \<Rightarrow> string \<Rightarrow> string \<Rightarrow> string \<Rightarrow> dict" where
  "ann_data address phone email date position company =
     [(''name'', ''Ann''), (''address'', address), (''phone'', phone), (''email'', email),
      (''date'', date), (''position'', position), (''company'', company)]"


definition example_entries :: "resume_entry list" where
  "example_entries =
     [\<lparr>e_id = Some 3, e_position = Some ''a'', e_date = Some [], e_items = Some []\<rparr>,
      \<lparr>e_id = Some 1, e_position = Some ''b'', e_date = Some [], e_items = Some []\<rparr>,
      \<lparr>e_id = Some 2, e_position = Some ''c'', e_date = Some [], e_items = Some []\<rparr>,
      \<lparr>e_id = Some 2, e_position = Some ''d'', e_date = Some [], e_items = Some []\<rparr>]"

definition example_sections :: "resume_section list" where
  "example_sections =
     [\<lparr>s_id = Some 3, s_title = Some ''S3'', s_content = Some []\<rparr>,
      \<lparr>s_id = Some 1, s_title = Some ''S1'', s_content = Some []\<rparr>,
      \<lparr>s_id = Some 2, s_title = Some ''S2'', s_content = Some []\<rparr>]"

text \<open>
  More sample payloads: an entry with an empty position and no date; an entry with a
  position and no date; the payload without name and title of the repository's test.
\<close>

definition undated_resume :: resume_data where
  "undated_resume =
     \<lparr>r_header = Some \<lparr>h_name = Some ''Ann'', h_title = Some ''Engineer''\<rparr>,
      r_contents = Some
        [\<lparr>s_id = Some 1, s_title = Some ''Skills'',
          s_content = Some
            [\<lparr>e_id = Some 1, e_position = Some [], e_date = None,
              e_items = Some [''Isabelle'']\<rparr>]\<rparr>]\<rparr>"

definition dateless_resume :: resume_data where
  "dateless_resume =
     \<lparr>r_header = Some \<lparr>h_name = Some ''Ann'', h_title = Some ''Engineer''\<rparr>,
      r_contents = Some
        [\<lparr>s_id = Some 1, s_title = Some ''Experience'',
          s_content = Some
            [\<lparr>e_id = Some 1, e_position = Some ''Engineer'', e_date = None,
              e_items = Some [''Isabelle'']\<rparr>]\<rparr>]\<rparr>"

definition invalid_data :: resume_data where
  "invalid_data = \<lparr>r_header = Some \<lparr>h_name = None, h_title = None\<rparr>, r_contents = Some []\<rparr>"

text \<open>The lines of that template once the name is filled in.\<close>

definition ann_lines :: "string list" where
  "ann_lines = [''Dear Hiring Manager,'', [], ''Ann'', [], ''Sincerely,'', ''Ann'']"

section \<open>The matcher\<close>

lemma star_greedy_length: "rest \<in> set (star_greedy c s) \<Longrightarrow> length rest \<le> length s"
  by (induction s) (auto split: if_splits)

lemma star_lazy_length: "rest \<in> set (star_lazy c s) \<Longrightarrow> length rest \<le> length s"
  by (induction s) (auto split: if_splits)

text \<open>A match consumes at least \<open>min_len r\<close> characters and leaves a shorter rest.\<close>

lemma rx_match_length:
  "(rest, cs') \<in> set (rx_match r s cs) \<Longrightarrow> length rest + min_len r \<le> length s"
proof (induction r arbitrary: s cs rest cs')
  case (Seq r1 r2)
  from Seq.prems obtain mid cs1 where
    a: "(mid, cs1) \<in> set (rx_match r1 s cs)" and b: "(rest, cs') \<in> set (rx_match r2 mid cs1)"
    by auto
  from Seq.IH(1)[OF a] Seq.IH(2)[OF b] show ?case by simp
qed (auto split: list.splits if_splits dest: star_greedy_length star_lazy_length)

text \<open>A match has every group of \<open>groups_of r\<close>.\<close>

lemma rx_match_groups:
  "(rest, cs') \<in> set (rx_match r s cs) \<Longrightarrow> groups_of r \<union> fst ` set cs \<subseteq> fst ` set cs'"
proof (induction r arbitrary: s cs rest cs')
  case (Seq r1 r2)
  from Seq.prems obtain mid cs1 where
    a: "(mid, cs1) \<in> set (rx_match r1 s cs)" and b: "(rest, cs') \<in> set (rx_match r2 mid cs1)"
    by auto
  have "groups_of r1 \<union> fst ` set cs \<subseteq> fst ` set cs1" by (rule Seq.IH(1)[OF a])
  moreover have "groups_of r2 \<union> fst ` set cs1 \<subseteq> fst ` set cs'" by (rule Seq.IH(2)[OF b])
  ultimately show ?case by (simp only: groups_of.simps) blast
next
  case (Group n r)
  from Group.prems obtain cs1 where
    a: "(rest, cs1) \<in> set (rx_match r s cs)" and b: "cs' = (n, take (length s - length rest) s) # cs1"
    by auto
  have "groups_of r \<union> fst ` set cs \<subseteq> fst ` set cs1" by (rule Group.IH[OF a])
  with b show ?case by auto
qed (auto split: list.splits if_splits)

lemma search_Some:
  "search r s pos = Some (mt, rest) \<Longrightarrow>
     length rest + min_len r \<le> length s \<and> groups_of r \<subseteq> fst ` set (m_groups mt)"
proof (induction s arbitrary: pos)
  case Nil
  from Nil obtain ps where "rx_match r [] [] = (rest, m_groups mt) # ps"
    by (auto split: list.splits)
  then have "(rest, m_groups mt) \<in> set (rx_match r [] [])" by simp
  from rx_match_length[OF this] rx_match_groups[OF this] show ?case by simp
next
  case (Cons x xs)
  show ?case
  proof (cases "rx_match r (x # xs) []")
    case Nil
    with Cons.prems have "search r xs (Suc pos) = Some (mt, rest)" by simp
    from Cons.IH[OF this] show ?thesis by simp
  next
    case (Cons p ps)
    obtain rest' cs' where p: "p = (rest', cs')" by (cases p)
    with Cons Cons.prems have "(rest, m_groups mt) \<in> set (rx_match r (x # xs) [])"
      by auto
    from rx_match_length[OF this] rx_match_groups[OF this] show ?thesis by simp
  qed
qed

text \<open>
  For a pattern that cannot match the empty string the test on the lengths in \<open>finditer\<close>
  always succeeds: \<open>finditer\<close> is the plain loop of searches.
\<close>

lemma finditer_unfold:
  assumes "0 < min_len r"
  shows "finditer r s pos =
     (case search r s pos of None \<Rightarrow> [] | Some (mt, rest) \<Rightarrow> mt # finditer r rest (m_end mt))"
proof (cases "search r s pos")
  case None
  then show ?thesis by (simp add: finditer.simps[of r s pos])
next
  case (Some p)
  obtain mt rest where p: "p = (mt, rest)" by (cases p)
  from search_Some[of r s pos mt rest] Some p assms have "length rest < length s" by simp
  with Some p show ?thesis by (simp add: finditer.simps[of r s pos])
qed

lemma finditer_groups:
  "mt \<in> set (finditer r s pos) \<Longrightarrow> groups_of r \<subseteq> fst ` set (m_groups mt)"
proof (induction r s pos rule: finditer.induct)
  case (1 r s pos)
  show ?case
  proof (cases "search r s pos")
    case None
    with "1.prems" show ?thesis by (simp add: finditer.simps[of r s pos])
  next
    case (Some p)
    obtain m0 rest where p: "p = (m0, rest)" by (cases p)
    show ?thesis
    proof (cases "mt = m0")
      case True
      with search_Some[of r s pos m0 rest] Some p show ?thesis by simp
    next
      case False
      from "1.prems" Some p False
      have lt: "length rest < length s" and mem: "mt \<in> set (finditer r rest (m_end m0))"
        by (auto simp add: finditer.simps[of r s pos] split: if_splits)
      from "1.IH"[OF Some p[symmetric] lt mem] show ?thesis .
    qed
  qed
qed

text \<open>The two patterns of the program: no empty match, and every match has its groups.\<close>

lemma min_len_href: "min_len href_pattern = 15"
  by (simp add: href_pattern_def lits_def)

lemma min_len_tag: "min_len tag_pattern = 8"
  by (simp add: tag_pattern_def lits_def)

lemma groups_of_href: "groups_of href_pattern = {1, 2}"
  by (auto simp add: href_pattern_def lits_def)

lemma groups_of_tag: "groups_of tag_pattern = {1}"
  by (auto simp add: tag_pattern_def lits_def)

lemma finditer_href_unfold:
  "finditer href_pattern s pos =
     (case search href_pattern s pos of
        None \<Rightarrow> []
      | Some (mt, rest) \<Rightarrow> mt # finditer href_pattern rest (m_end mt))"
  by (rule finditer_unfold) (simp add: min_len_href)

lemma finditer_tag_unfold:
  "finditer tag_pattern s pos =
     (case search tag_pattern s pos of
        None \<Rightarrow> []
      | Some (mt, rest) \<Rightarrow> mt # finditer tag_pattern rest (m_end mt))"
  by (rule finditer_unfold) (simp add: min_len_tag)

lemma finditer_href_groups:
  assumes "mt \<in> set (finditer href_pattern s pos)"
  shows "map_of (m_groups mt) 1 \<noteq> None" and "map_of (m_groups mt) 2 \<noteq> None"
  using finditer_groups[OF assms] by (auto simp add: groups_of_href map_of_eq_None_iff)

lemma finditer_tag_groups:
  assumes "mt \<in> set (finditer tag_pattern s pos)"
  shows "map_of (m_groups mt) 1 \<noteq> None"
  using finditer_groups[OF assms] by (auto simp add: groups_of_tag map_of_eq_None_iff)

text \<open>A text without \<open><a\<close> has no match of either pattern.\<close>

lemma rx_match_open_tag:
  "take 2 s \<noteq> ''<a'' \<Longrightarrow> rx_match (Seq (lits ''<a'') r) s cs = []"
  by (auto simp add: lits_def split: list.splits if_splits)

lemma href_pattern_open: "\<exists>r. href_pattern = Seq (lits ''<a'') r"
  by (simp add: href_pattern_def)

lemma tag_pattern_open: "\<exists>r. tag_pattern = Seq (lits ''<a'') r"
  by (simp add: tag_pattern_def)

lemma search_no_open_tag:
  "\<not> has_open_tag s \<Longrightarrow> search (Seq (lits ''<a'') r) s pos = None"
proof (induction s arbitrary: pos)
  case Nil
  have e: "rx_match (Seq (lits ''<a'') r) [] [] = []"
    by (rule rx_match_open_tag) simp
  show ?case by (subst search.simps) (simp only: e list.case)
next
  case (Cons x xs)
  from Cons.prems have a: "take 2 (x # xs) \<noteq> ''<a''" and b: "\<not> has_open_tag xs"
    by auto
  have e: "rx_match (Seq (lits ''<a'') r) (x # xs) [] = []"
    using a by (rule rx_match_open_tag)
  show ?case by (subst search.simps) (simp only: e list.case Cons.IH[OF b])
qed

lemma finditer_no_open_tag:
  assumes "\<not> has_open_tag s"
  shows "finditer (Seq (lits ''<a'') r) s pos = []"
proof -
  have e: "search (Seq (lits ''<a'') r) s pos = None"
    using assms by (rule search_no_open_tag)
  show ?thesis by (subst finditer.simps) (simp only: e option.case)
qed

lemma no_open_tag_no_anchor:
  assumes "\<not> has_open_tag t"
  shows "finditer href_pattern t 0 = []" and "finditer tag_pattern t 0 = []"
proof -
  from href_pattern_open obtain r where eq: "href_pattern = Seq (lits ''<a'') r" ..
  show "finditer href_pattern t 0 = []"
    unfolding eq using assms by (rule finditer_no_open_tag)
  from tag_pattern_open obtain r where eq: "tag_pattern = Seq (lits ''<a'') r" ..
  show "finditer tag_pattern t 0 = []"
    unfolding eq using assms by (rule finditer_no_open_tag)
qed

section \<open>Inline markup: the properties\<close>

text \<open>
  Claim C7. For the text \<open>A <a href='u'>L</a> B\<close>, whose \<open>href\<close> is in single quotes,
  \<open>process_text_with_hyperlinks\<close> adds exactly the three runs plain \<open>A \<close>, hyperlink with
  text \<open>L\<close> and address \<open>u\<close>, plain \<open> B\<close>, in this order, and \<open>remove_hyperlink\<close> returns
  \<open>A L B\<close>.
\<close>

theorem single_quoted_anchor_runs:
  "process_text_with_hyperlinks ''A <a href='u'>L</a> B''
     = [Plain ''A '', Hyperlink ''L'' ''u'', Plain '' B''] \<and>
   remove_hyperlink ''A <a href='u'>L</a> B'' = ''A L B''"
  by code_simp

text \<open>
  Claim C8. The two functions recognise different tags. On \<open><a class='x'>L</a>\<close>, a tag
  with an attribute but no \<open>href\<close>, \<open>remove_hyperlink\<close> replaces the tag by its label \<open>L\<close>
  while \<open>process_text_with_hyperlinks\<close> keeps the whole tag as one plain run: the texts
  of the runs, put together, differ from the result of \<open>remove_hyperlink\<close>.
\<close>

theorem tag_shapes_differ:
  "remove_hyperlink ''<a class='x'>L</a>'' = ''L'' \<and>
   process_text_with_hyperlinks ''<a class='x'>L</a>'' = [Plain ''<a class='x'>L</a>''] \<and>
   concat (map run_text (process_text_with_hyperlinks ''<a class='x'>L</a>''))
     \<noteq> remove_hyperlink ''<a class='x'>L</a>''"
  by code_simp

text \<open>
  Claim C3, as stated, fails twice. The empty text has no anchor, and
  \<open>process_text_with_hyperlinks\<close> adds no run for it, not one empty plain run. The text
  \<open><a class='x'>L</a>\<close> has no anchor with an \<open>href\<close>, and \<open>remove_hyperlink\<close> changes it.
\<close>

theorem no_anchor_counterexample:
  "finditer href_pattern [] 0 = [] \<and>
   process_text_with_hyperlinks [] = [] \<and>
   process_text_with_hyperlinks [] \<noteq> [Plain []] \<and>
   finditer href_pattern ''<a class='x'>L</a>'' 0 = [] \<and>
   remove_hyperlink ''<a class='x'>L</a>'' \<noteq> ''<a class='x'>L</a>''"
  by code_simp

text \<open>
  Claim C3, amended. For every text in which the pattern of
  \<open>process_text_with_hyperlinks\<close> has no match, the function adds exactly one plain run
  equal to the text when the text is not empty and no run when it is empty. For every
  text in which the pattern of \<open>remove_hyperlink\<close> has no match, that function returns
  the text unchanged. Both hold in particular for every text without the characters
  \<open><a\<close>.
\<close>

theorem no_anchor_text:
  "(finditer href_pattern t 0 = [] \<longrightarrow>
      process_text_with_hyperlinks t = (if t = [] then [] else [Plain t])) \<and>
   (finditer tag_pattern t 0 = [] \<longrightarrow> remove_hyperlink t = t) \<and>
   (\<not> has_open_tag t \<longrightarrow>
      process_text_with_hyperlinks t = (if t = [] then [] else [Plain t]) \<and>
      remove_hyperlink t = t)"
proof -
  have a: "process_text_with_hyperlinks t = (if t = [] then [] else [Plain t])"
    if "finditer href_pattern t 0 = []"
    using that by (simp add: process_text_with_hyperlinks_def)
  have b: "remove_hyperlink t = t" if "finditer tag_pattern t 0 = []"
    using that by (simp add: remove_hyperlink_def re_sub_group1_def)
  from a b no_open_tag_no_anchor[of t] show ?thesis by blast
qed

theorem no_anchor_text_witness:
  "finditer href_pattern ''Led a team of 5'' 0 = [] \<and>
   finditer tag_pattern ''Led a team of 5'' 0 = [] \<and>
   process_text_with_hyperlinks ''Led a team of 5'' = [Plain ''Led a team of 5''] \<and>
   remove_hyperlink ''Led a team of 5'' = ''Led a team of 5''"
proof -
  have h1: "finditer href_pattern ''Led a team of 5'' 0 = []" by code_simp
  have h2: "finditer tag_pattern ''Led a team of 5'' 0 = []" by code_simp
  from no_anchor_text[of "''Led a team of 5''"] h1 h2 show ?thesis by simp
qed

section \<open>The resume: sorting\<close>

lemma decorate_Inr:
  "decorate key xs = Inr kxs \<Longrightarrow> map snd kxs = xs \<and> (\<forall>(k, x) \<in> set kxs. key x = Inr k)"
  by (induction xs arbitrary: kxs) (auto split: sum.splits)

lemma decorate_total:
  "\<forall>x \<in> set xs. key x = Inr (f x) \<Longrightarrow> decorate key xs = Inr (map (\<lambda>x. (f x, x)) xs)"
  by (induction xs) auto

lemma insort_key_decorated:
  "insort_key fst (f x, x) (map (\<lambda>x. (f x, x)) ys) = map (\<lambda>x. (f x, x)) (insort_key f x ys)"
  by (induction ys) auto

lemma sort_key_decorated:
  "sort_key fst (map (\<lambda>x. (f x, x)) xs) = map (\<lambda>x. (f x, x)) (sort_key f xs)"
  by (induction xs) (auto simp add: insort_key_decorated)

lemma rev_sort_rev:
  fixes f :: "'a \<Rightarrow> int"
  shows "rev (sort_key f (rev xs)) = by_id_desc f xs"
  unfolding by_id_desc_def
proof (rule properties_for_sort_key[symmetric])
  show "mset (rev (sort_key f (rev xs))) = mset xs" by simp
next
  fix k
  have "filter (\<lambda>x. f x = f k) (rev (sort_key f (rev xs))) = filter (\<lambda>x. f x = f k) xs"
    by (simp only: rev_filter[symmetric] sort_key_stable rev_rev_ident)
  moreover have "(\<lambda>x. - f k = - f x) = (\<lambda>x. f x = f k)" by auto
  ultimately show "filter (\<lambda>x. - f k = - f x) (rev (sort_key f (rev xs))) = filter (\<lambda>x. - f k = - f x) xs"
    by simp
next
  have "sorted (map f (sort_key f (rev xs)))" by simp
  then have "sorted_wrt (\<lambda>x y. f x \<le> f y) (sort_key f (rev xs))"
    by (simp only: sorted_wrt_map)
  then have "sorted_wrt (\<lambda>x y. - f x \<le> - f y) (rev (sort_key f (rev xs)))"
    by (simp add: sorted_wrt_rev)
  then show "sorted (map (\<lambda>x. - f x) (rev (sort_key f (rev xs))))"
    by (simp only: sorted_wrt_map)
qed

lemma sorted_py_reverse:
  assumes "\<forall>x \<in> set xs. key x = Inr (f x)"
  shows "sorted_py key True xs = Inr (by_id_desc f xs)"
proof -
  have "rev (map (\<lambda>x. (f x, x)) xs) = map (\<lambda>x. (f x, x)) (rev xs)"
    by (rule rev_map)
  then have "sort_key fst (rev (map (\<lambda>x. (f x, x)) xs)) = map (\<lambda>x. (f x, x)) (sort_key f (rev xs))"
    by (simp only: sort_key_decorated)
  then have "map snd (rev (sort_key fst (rev (map (\<lambda>x. (f x, x)) xs)))) = rev (sort_key f (rev xs))"
    by (simp add: rev_map comp_def)
  then have e: "map snd (rev (sort_key fst (rev (map (\<lambda>x. (f x, x)) xs)))) = by_id_desc f xs"
    by (simp only: rev_sort_rev)
  from assms have d: "decorate key xs = Inr (map (\<lambda>x. (f x, x)) xs)"
    by (rule decorate_total)
  show ?thesis
    unfolding sorted_py_def d using e by simp
qed

lemma sorted_py_set:
  assumes "sorted_py key reverse xs = Inr ys"
  shows "set ys = set xs"
proof -
  from assms obtain kxs where d: "decorate key xs = Inr kxs"
    and ys: "ys = map snd (if reverse then rev (sort_key fst (rev kxs)) else sort_key fst kxs)"
    by (auto simp add: sorted_py_def split: sum.splits)
  from decorate_Inr[OF d] have "map snd kxs = xs" by simp
  then have "snd ` set kxs = set xs" by (metis set_map)
  with ys show ?thesis by auto
qed

lemma by_id_desc_props:
  fixes f :: "'a \<Rightarrow> int"
  shows "sorted (rev (map f (by_id_desc f xs)))"
    and "mset (by_id_desc f xs) = mset xs"
    and "filter (\<lambda>x. f x = k) (by_id_desc f xs) = filter (\<lambda>x. f x = k) xs"
proof -
  have "sorted (map f (sort_key f (rev xs)))" by simp
  then show "sorted (rev (map f (by_id_desc f xs)))"
    by (simp add: rev_sort_rev[symmetric] rev_map)
  show "mset (by_id_desc f xs) = mset xs" by (simp add: by_id_desc_def)
  have "filter (\<lambda>x. - f x = - k) (sort_key (\<lambda>x. - f x) xs) = filter (\<lambda>x. - f x = - k) xs"
    by (rule sort_key_stable)
  then show "filter (\<lambda>x. f x = k) (by_id_desc f xs) = filter (\<lambda>x. f x = k) xs"
    by (simp add: by_id_desc_def)
qed


lemma sort_items_present:
  assumes "\<forall>e \<in> set es. e_id e \<noteq> None"
  shows "sort_items es = Inr (by_id_desc (\<lambda>e. the (e_id e)) es)"
  unfolding sort_items_def
  by (rule sorted_py_reverse) (use assms in \<open>auto simp add: getitem_def\<close>)

lemma sort_contents_present:
  assumes "\<forall>s \<in> set ss. s_id s \<noteq> None"
  shows "sort_contents ss = Inr (by_id_desc (\<lambda>s. the (s_id s)) ss)"
  unfolding sort_contents_def
  by (rule sorted_py_reverse) (use assms in \<open>auto simp add: getitem_def\<close>)

text \<open>
  Claim C2. Before rendering, the sections and, in each section, the entries are put in
  the order of descending id by a stable sort: when every element has an id, the result
  is sorted by descending id, is a permutation of the input, and keeps the input order
  among the elements of any one id. Three elements with the ids 3, 1, 2 come out in the
  order 3, 2, 1.
\<close>

theorem sort_descending_stable:
  "((\<forall>s \<in> set ss. s_id s \<noteq> None) \<longrightarrow>
      (\<exists>ys. sort_contents ss = Inr ys \<and>
            sorted (rev (map (\<lambda>s. the (s_id s)) ys)) \<and> mset ys = mset ss \<and>
            (\<forall>k. filter (\<lambda>s. the (s_id s) = k) ys = filter (\<lambda>s. the (s_id s) = k) ss))) \<and>
   ((\<forall>e \<in> set es. e_id e \<noteq> None) \<longrightarrow>
      (\<exists>ys. sort_items es = Inr ys \<and>
            sorted (rev (map (\<lambda>e. the (e_id e)) ys)) \<and> mset ys = mset es \<and>
            (\<forall>k. filter (\<lambda>e. the (e_id e) = k) ys = filter (\<lambda>e. the (e_id e) = k) es))) \<and>
   (s_id s3 = Some 3 \<and> s_id s1 = Some 1 \<and> s_id s2 = Some 2 \<longrightarrow>
      sort_contents [s3, s1, s2] = Inr [s3, s2, s1]) \<and>
   (e_id e3 = Some 3 \<and> e_id e1 = Some 1 \<and> e_id e2 = Some 2 \<longrightarrow>
      sort_items [e3, e1, e2] = Inr [e3, e2, e1])"
proof (intro conjI impI)
  assume "\<forall>s \<in> set ss. s_id s \<noteq> None"
  then have "sort_contents ss = Inr (by_id_desc (\<lambda>s. the (s_id s)) ss)"
    by (rule sort_contents_present)
  then show "\<exists>ys. sort_contents ss = Inr ys \<and>
            sorted (rev (map (\<lambda>s. the (s_id s)) ys)) \<and> mset ys = mset ss \<and>
            (\<forall>k. filter (\<lambda>s. the (s_id s) = k) ys = filter (\<lambda>s. the (s_id s) = k) ss)"
    by (simp add: by_id_desc_props)
next
  assume "\<forall>e \<in> set es. e_id e \<noteq> None"
  then have "sort_items es = Inr (by_id_desc (\<lambda>e. the (e_id e)) es)"
    by (rule sort_items_present)
  then show "\<exists>ys. sort_items es = Inr ys \<and>
            sorted (rev (map (\<lambda>e. the (e_id e)) ys)) \<and> mset ys = mset es \<and>
            (\<forall>k. filter (\<lambda>e. the (e_id e) = k) ys = filter (\<lambda>e. the (e_id e) = k) es)"
    by (simp add: by_id_desc_props)
next
  assume "s_id s3 = Some 3 \<and> s_id s1 = Some 1 \<and> s_id s2 = Some 2"
  then show "sort_contents [s3, s1, s2] = Inr [s3, s2, s1]"
    by (simp add: sort_contents_def sorted_py_def getitem_def)
next
  assume "e_id e3 = Some 3 \<and> e_id e1 = Some 1 \<and> e_id e2 = Some 2"
  then show "sort_items [e3, e1, e2] = Inr [e3, e2, e1]"
    by (simp add: sort_items_def sorted_py_def getitem_def)
qed

theorem sort_descending_stable_witness:
  "list_all (\<lambda>s. s_id s \<noteq> None) example_sections \<and>
   list_all (\<lambda>e. e_id e \<noteq> None) example_entries \<and>
   map s_title (projr (sort_contents example_sections)) = [Some ''S3'', Some ''S2'', Some ''S1''] \<and>
   map e_position (projr (sort_items example_entries)) = [Some ''a'', Some ''c'', Some ''d'', Some ''b''] \<and>
   sorted (rev (map (\<lambda>e. the (e_id e)) (projr (sort_items example_entries)))) \<and>
   filter (\<lambda>e. the (e_id e) = 2) (projr (sort_items example_entries))
     = filter (\<lambda>e. the (e_id e) = 2) example_entries"
proof -
  have h1: "\<forall>s \<in> set example_sections. s_id s \<noteq> None"
    by (simp add: example_sections_def)
  have h2: "\<forall>e \<in> set example_entries. e_id e \<noteq> None"
    by (simp add: example_entries_def)
  have v1: "sort_contents example_sections =
     Inr [example_sections ! 0, example_sections ! 2, example_sections ! 1]"
    by (simp add: example_sections_def sort_contents_def sorted_py_def getitem_def)
  have v2: "sort_items example_entries =
     Inr [example_entries ! 0, example_entries ! 2, example_entries ! 3, example_entries ! 1]"
    by (simp add: example_entries_def sort_items_def sorted_py_def getitem_def)
  from sort_descending_stable[where ss = example_sections and es = example_entries] h2
  obtain ys where "sort_items example_entries = Inr ys"
    and "sorted (rev (map (\<lambda>e. the (e_id e)) ys))"
    and "\<forall>k. filter (\<lambda>e. the (e_id e) = k) ys = filter (\<lambda>e. the (e_id e) = k) example_entries"
    by blast
  then have "sorted (rev (map (\<lambda>e. the (e_id e)) (projr (sort_items example_entries)))) \<and>
        filter (\<lambda>e. the (e_id e) = 2) (projr (sort_items example_entries))
          = filter (\<lambda>e. the (e_id e) = 2) example_entries"
    by simp
  moreover have "list_all (\<lambda>s. s_id s \<noteq> None) example_sections"
    by (simp add: example_sections_def)
  moreover have "list_all (\<lambda>e. e_id e \<noteq> None) example_entries"
    by (simp add: example_entries_def)
  moreover have "map s_title (projr (sort_contents example_sections)) = [Some ''S3'', Some ''S2'', Some ''S1'']"
    unfolding v1 by (simp add: example_sections_def)
  moreover have "map e_position (projr (sort_items example_entries)) = [Some ''a'', Some ''c'', Some ''d'', Some ''b'']"
    unfolding v2 by (simp add: example_entries_def)
  ultimately show ?thesis by blast
qed

section \<open>The resume: the nodes of the document\<close>







section \<open>The resume: missing keys\<close>

text \<open>Every exception of \<open>build_document\<close> is a \<open>KeyError\<close>.\<close>

lemma getitem_error: "getitem k v = Inl err \<Longrightarrow> err = KeyError k"
  by (auto simp add: getitem_def split: option.splits)

lemma decorate_error: "decorate key xs = Inl err \<Longrightarrow> \<exists>x \<in> set xs. key x = Inl err"
  by (induction xs) (auto split: sum.splits)

lemma sorted_py_error:
  "sorted_py key reverse xs = Inl err \<Longrightarrow> \<exists>x \<in> set xs. key x = Inl err"
  by (auto simp add: sorted_py_def split: sum.splits dest: decorate_error)

lemma for_each_error:
  "for_each body xs st = Inl err \<Longrightarrow> \<exists>x \<in> set xs. \<exists>st'. body x st' = Inl err"
  by (induction xs arbitrary: st) (auto split: sum.splits)

lemma for_each_Inr:
  "for_each body xs st = Inr st' \<Longrightarrow> x \<in> set xs \<Longrightarrow> \<exists>a b. body x a = Inr b"
  by (induction xs arbitrary: st) (auto split: sum.splits)

lemma render_item_error: "render_item e doc = Inl err \<Longrightarrow> \<exists>k. err = KeyError k"
  by (auto simp add: render_item_def Let_def split: sum.splits if_splits dest: getitem_error)

lemma render_section_error:
  assumes "render_section s doc = Inl err"
  shows "\<exists>k. err = KeyError k"
proof (cases "getitem ''title'' (s_title s)")
  case (Inl e)
  with assms show ?thesis by (auto simp add: render_section_def dest: getitem_error)
next
  case t: (Inr title)
  show ?thesis
  proof (cases "getitem ''content'' (s_content s)")
    case (Inl e)
    with assms t show ?thesis by (auto simp add: render_section_def dest: getitem_error)
  next
    case c: (Inr content)
    show ?thesis
    proof (cases "sort_items content")
      case (Inl e)
      with assms t c have "sort_items content = Inl err" by (simp add: render_section_def)
      then have "\<exists>x \<in> set content. getitem ''id'' (e_id x) = Inl err"
        unfolding sort_items_def by (rule sorted_py_error)
      then show ?thesis by (blast dest: getitem_error)
    next
      case (Inr items)
      with assms t c have "for_each render_item items (doc @ [Heading 1 title]) = Inl err"
        by (simp add: render_section_def)
      then show ?thesis by (blast dest: for_each_error render_item_error)
    qed
  qed
qed

lemma sort_contents_error: "sort_contents ss = Inl err \<Longrightarrow> \<exists>k. err = KeyError k"
  unfolding sort_contents_def by (blast dest: sorted_py_error getitem_error)

lemma sections_loop_error:
  "for_each render_section sections st = Inl err \<Longrightarrow> \<exists>k. err = KeyError k"
  by (blast dest: for_each_error render_section_error)

lemma build_document_error:
  assumes "build_document d doc = Inl err"
  shows "\<exists>k. err = KeyError k"
  using assms unfolding build_document_def
  by (auto split: sum.splits dest: getitem_error sort_contents_error sections_loop_error)

lemma render_item_raises:
  "entry_raises e \<Longrightarrow> \<exists>err. render_item e doc = Inl err"
  by (auto simp add: entry_raises_def render_item_def getitem_def Let_def split: option.splits)

lemma render_section_raises:
  assumes "s_content s = Some es" and "e \<in> set es" and "entry_raises e"
  shows "\<exists>err. render_section s doc = Inl err"
proof (cases "render_section s doc")
  case (Inl err)
  then show ?thesis by blast
next
  case (Inr doc')
  with assms(1) obtain title items where
    srt: "sort_items es = Inr items" and
    loop: "for_each render_item items (doc @ [Heading 1 title]) = Inr doc'"
    by (auto simp add: render_section_def getitem_def split: sum.splits option.splits)
  from srt have "set items = set es" unfolding sort_items_def by (rule sorted_py_set)
  with assms(2) have "e \<in> set items" by simp
  from for_each_Inr[OF loop this] obtain a b where "render_item e a = Inr b" by blast
  with render_item_raises[OF assms(3), of a] show ?thesis by simp
qed

lemma build_document_raises:
  assumes "r_contents d = Some ss" and "s \<in> set ss" and "s_content s = Some es"
    and "e \<in> set es" and "entry_raises e"
  shows "\<exists>err. build_document d doc = Inl err"
proof (cases "build_document d doc")
  case (Inl err)
  then show ?thesis by blast
next
  case (Inr doc')
  with assms(1) obtain sections st where
    srt: "sort_contents ss = Inr sections" and
    loop: "for_each render_section sections st = Inr doc'"
    by (auto simp add: build_document_def getitem_def split: sum.splits option.splits)
  from srt have "set sections = set ss" unfolding sort_contents_def by (rule sorted_py_set)
  with assms(2) have "s \<in> set sections" by simp
  from for_each_Inr[OF loop this] obtain a b where "render_section s a = Inr b" by blast
  with render_section_raises[OF assms(3-5), of a] show ?thesis by simp
qed

text \<open>
  Claim C9, as stated, fails for the date: an entry whose position is empty is rendered
  without reading its date, so the payload \<open>undated_resume\<close>, whose only entry has no
  date, is rendered without an exception.
\<close>

theorem entry_missing_key_counterexample:
  "e_date (hd (the (s_content (hd (the (r_contents undated_resume)))))) = None \<and>
   build_document undated_resume [] =
     Inr [Heading 0 ''Ann'', Heading 3 ''Engineer'', Heading 1 ''Skills'',
          Paragraph ''List Bullet'' [Plain ''Isabelle'']]"
  by code_simp

text \<open>
  Claim C9, amended. When some entry of some section lacks the key \<open>position\<close> or the key
  \<open>items\<close>, or lacks the key \<open>date\<close> while its position is not empty, the rendering raises
  a \<open>KeyError\<close> and nothing is saved. An entry with an empty position is rendered without
  reading its date: the body of the loop adds its bullet paragraphs whether the key
  \<open>date\<close> is there or not.
\<close>

theorem entry_missing_key_raises:
  "(r_contents d = Some ss \<and> s \<in> set ss \<and> s_content s = Some es \<and> e \<in> set es \<and>
    entry_raises e \<longrightarrow>
      (\<exists>k. build_document d doc = Inl (KeyError k) \<and>
           generate_resume doc d output_file fs = (Inl (KeyError k), fs))) \<and>
   (e_position e' = Some [] \<and> e_items e' = Some bullets \<longrightarrow>
      render_item e' doc' = Inr (fold add_bullet bullets doc'))"
proof (intro conjI impI)
  assume a: "r_contents d = Some ss \<and> s \<in> set ss \<and> s_content s = Some es \<and> e \<in> set es \<and>
    entry_raises e"
  then obtain err where err: "build_document d doc = Inl err"
    using build_document_raises[of d ss s es e doc] by blast
  then obtain k where "err = KeyError k" by (blast dest: build_document_error)
  with err show "\<exists>k. build_document d doc = Inl (KeyError k) \<and>
           generate_resume doc d output_file fs = (Inl (KeyError k), fs)"
    by (simp add: generate_resume_def)
next
  assume "e_position e' = Some [] \<and> e_items e' = Some bullets"
  then show "render_item e' doc' = Inr (fold add_bullet bullets doc')"
    by (simp add: render_item_def getitem_def)
qed

theorem entry_missing_key_raises_witness:
  "entry_raises (hd (the (s_content (hd (the (r_contents dateless_resume)))))) \<and>
   build_document dateless_resume [] = Inl (KeyError ''date'') \<and>
   generate_resume [] dateless_resume ''resume.docx'' Map.empty = (Inl (KeyError ''date''), Map.empty)"
proof -
  let ?s = "hd (the (r_contents dateless_resume))"
  let ?e = "hd (the (s_content ?s))"
  have h: "r_contents dateless_resume = Some [?s] \<and> ?s \<in> set [?s] \<and>
           s_content ?s = Some [?e] \<and> ?e \<in> set [?e] \<and> entry_raises ?e"
    by (simp add: dateless_resume_def entry_raises_def)
  have v: "build_document dateless_resume [] = Inl (KeyError ''date'')"
    by code_simp
  from entry_missing_key_raises[where d = dateless_resume and ss = "[?s]" and s = ?s
      and es = "[?e]" and e = ?e and doc = "[]" and output_file = "''resume.docx''"
      and fs = Map.empty] h v
  show ?thesis by auto
qed

text \<open>
  Claim C6. When the header of the resume lacks the name or the title,
  \<open>generate_resume\<close> raises a \<open>KeyError\<close> and the files are unchanged. In both programs
  the file is written only after the whole document is built: an exception while
  building leaves the files unchanged, and a success binds the output path to the
  complete document.
\<close>

theorem no_partial_output:
  "(r_header d = None \<longrightarrow>
      generate_resume doc d output_file fs = (Inl (KeyError ''header''), fs)) \<and>
   (r_header d = Some h \<and> h_name h = None \<longrightarrow>
      generate_resume doc d output_file fs = (Inl (KeyError ''name''), fs)) \<and>
   (r_header d = Some h \<and> h_name h \<noteq> None \<and> h_title h = None \<longrightarrow>
      generate_resume doc d output_file fs = (Inl (KeyError ''title''), fs)) \<and>
   (build_document d doc = Inl err \<longrightarrow>
      generate_resume doc d output_file fs = (Inl err, fs)) \<and>
   (build_document d doc = Inr doc' \<longrightarrow>
      generate_resume doc d output_file fs = (Inr doc', fs(output_file \<mapsto> doc'))) \<and>
   (build_letter data template = Inl err' \<longrightarrow>
      create_cover_letter data template letter_file cfs = (Inl err', cfs)) \<and>
   (build_letter data template = Inr letter \<longrightarrow>
      create_cover_letter data template letter_file cfs = (Inr (), cfs(letter_file \<mapsto> letter)))"
  by (auto simp add: generate_resume_def build_document_def getitem_def create_cover_letter_def)

theorem no_partial_output_witness:
  "r_header invalid_data = Some \<lparr>h_name = None, h_title = None\<rparr> \<and>
   generate_resume [] invalid_data ''output.docx'' Map.empty = (Inl (KeyError ''name''), Map.empty) \<and>
   build_letter [(''name'', ''Ann'')] ann_template = Inl (KeyError ''address'') \<and>
   create_cover_letter [(''name'', ''Ann'')] ann_template ''letter.docx'' Map.empty
     = (Inl (KeyError ''address''), Map.empty)"
proof -
  have h: "r_header invalid_data = Some \<lparr>h_name = None, h_title = None\<rparr>"
    by (simp add: invalid_data_def)
  have l: "build_letter [(''name'', ''Ann'')] ann_template = Inl (KeyError ''address'')"
    by code_simp
  from no_partial_output[where d = invalid_data and h = "\<lparr>h_name = None, h_title = None\<rparr>"
      and doc = "[]" and output_file = "''output.docx''" and fs = Map.empty
      and data = "[(''name'', ''Ann'')]" and template = ann_template
      and err' = "KeyError ''address''" and letter_file = "''letter.docx''"
      and cfs = Map.empty] h l
  show ?thesis by simp
qed

section \<open>The cover letter: the check of the header\<close>

text \<open>The loop of \<open>main\<close> stops at the first required field that is absent or empty.\<close>

lemma validate_header_find:
  "validate_header header fs =
     (case find (missing_or_empty header) fs of
        None \<Rightarrow> Inr ()
      | Some f \<Rightarrow> Inl (ValueError (missing_message f)))"
  by (induction fs) (auto simp add: missing_or_empty_def split: option.splits)

lemma find_some_member:
  "x \<in> set xs \<Longrightarrow> P x \<Longrightarrow> \<exists>y \<in> set xs. find P xs = Some y"
  by (induction xs) auto

lemma main_validation_error:
  assumes "validate_header (case json_header of None \<Rightarrow> [] | Some h \<Rightarrow> h) required_fields = Inl err"
  shows "cover_letter_main template json_header position company date output_file fs = (Inl err, fs)"
  using assms by (simp add: cover_letter_main_def)

text \<open>
  Claim C5, as stated, fails: with an empty header all four required fields are
  missing, and the error that \<open>main\<close> reports names \<open>name\<close> only; it mentions none of
  \<open>phone\<close>, \<open>email\<close> and \<open>address\<close>.
\<close>

theorem validation_counterexample:
  "cover_letter_main ann_template (Some []) ''Engineer'' ''ACME'' ''May 24, 2025'' ''letter.docx'' Map.empty
     = (Inl (ValueError (missing_message ''name'')), Map.empty) \<and>
   \<not> mentions (missing_message ''name'') ''phone'' \<and>
   \<not> mentions (missing_message ''name'') ''email'' \<and>
   \<not> mentions (missing_message ''name'') ''address''"
proof -
  have "validate_header [] required_fields = Inl (ValueError (missing_message ''name''))"
    by (simp add: required_fields_def)
  then have "cover_letter_main ann_template (Some []) ''Engineer'' ''ACME'' ''May 24, 2025'' ''letter.docx'' Map.empty
     = (Inl (ValueError (missing_message ''name'')), Map.empty)"
    by (simp add: cover_letter_main_def)
  moreover have "\<not> mentions (missing_message ''name'') ''phone''" by code_simp
  moreover have "\<not> mentions (missing_message ''name'') ''email''" by code_simp
  moreover have "\<not> mentions (missing_message ''name'') ''address''" by code_simp
  ultimately show ?thesis by blast
qed

text \<open>
  Claim C5, amended. The header is checked before the letter is built, field by field
  in the order name, phone, email, address; the check raises at the first field that is
  absent or empty, and the error names that field only. When the check raises, \<open>main\<close>
  ends with that error and no file is written.
\<close>

theorem validation_first_missing:
  "validate_header header required_fields =
     (case find (missing_or_empty header) required_fields of
        None \<Rightarrow> Inr ()
      | Some f \<Rightarrow> Inl (ValueError (missing_message f))) \<and>
   (validate_header (case json_header of None \<Rightarrow> [] | Some h \<Rightarrow> h) required_fields = Inl err \<longrightarrow>
      cover_letter_main template json_header position company date output_file fs = (Inl err, fs))"
  by (simp add: validate_header_find main_validation_error)

theorem validation_first_missing_witness:
  "validate_header [(''name'', ''Ann'')] required_fields = Inl (ValueError (missing_message ''phone'')) \<and>
   cover_letter_main ann_template (Some [(''name'', ''Ann'')]) ''Engineer'' ''ACME'' ''May 24, 2025''
       ''letter.docx'' Map.empty
     = (Inl (ValueError (missing_message ''phone'')), Map.empty)"
proof -
  have h: "validate_header [(''name'', ''Ann'')] required_fields = Inl (ValueError (missing_message ''phone''))"
    by (simp add: required_fields_def)
  from validation_first_missing[where header = "[(''name'', ''Ann'')]"
      and json_header = "Some [(''name'', ''Ann'')]" and err = "ValueError (missing_message ''phone'')"
      and template = ann_template and position = "''Engineer''" and company = "''ACME''"
      and date = "''May 24, 2025''" and output_file = "''letter.docx''" and fs = Map.empty] h
  show ?thesis by simp
qed

text \<open>
  Claim C10. A required field that is present with the empty string as its value is
  rejected like an absent one: for every header in which one of name, phone, email,
  address is the empty string, \<open>main\<close> ends with the error of the check of the header,
  naming a required field, and no file is written.
\<close>

theorem empty_field_rejected:
  assumes "field \<in> set required_fields" and "map_of header field = Some []"
  shows "\<exists>f \<in> set required_fields.
           cover_letter_main template (Some header) position company date output_file fs
             = (Inl (ValueError (missing_message f)), fs)"
proof -
  from assms(2) have "missing_or_empty header field" by (simp add: missing_or_empty_def)
  with assms(1) have "\<exists>y \<in> set required_fields. find (missing_or_empty header) required_fields = Some y"
    by (rule find_some_member)
  then obtain f where f: "f \<in> set required_fields"
    and found: "find (missing_or_empty header) required_fields = Some f"
    by blast
  have "validate_header header required_fields = Inl (ValueError (missing_message f))"
    by (simp add: validate_header_find found)
  then have "cover_letter_main template (Some header) position company date output_file fs
             = (Inl (ValueError (missing_message f)), fs)"
    by (simp add: cover_letter_main_def)
  with f show ?thesis by blast
qed

theorem empty_field_rejected_witness:
  "''email'' \<in> set required_fields \<and>
   map_of [(''name'', ''Ann''), (''phone'', ''555''), (''email'', ''''), (''address'', ''1 Main St'')] ''email''
     = Some [] \<and>
   cover_letter_main ann_template
       (Some [(''name'', ''Ann''), (''phone'', ''555''), (''email'', ''''), (''address'', ''1 Main St'')])
       ''Engineer'' ''ACME'' ''May 24, 2025'' ''letter.docx'' Map.empty
     = (Inl (ValueError (missing_message ''email'')), Map.empty)"
proof -
  let ?h = "[(''name'', ''Ann''), (''phone'', ''555''), (''email'', ''''), (''address'', ''1 Main St'')]"
  have h1: "''email'' \<in> set required_fields" by (simp add: required_fields_def)
  have h2: "map_of ?h ''email'' = Some []" by simp
  from empty_field_rejected[OF h1 h2, of ann_template "''Engineer''" "''ACME''" "''May 24, 2025''"
      "''letter.docx''" Map.empty]
  obtain f where "cover_letter_main ann_template (Some ?h) ''Engineer'' ''ACME'' ''May 24, 2025''
      ''letter.docx'' Map.empty = (Inl (ValueError (missing_message f)), Map.empty)"
    by blast
  moreover have "validate_header ?h required_fields = Inl (ValueError (missing_message ''email''))"
    by (simp add: required_fields_def)
  ultimately have "cover_letter_main ann_template (Some ?h) ''Engineer'' ''ACME'' ''May 24, 2025''
      ''letter.docx'' Map.empty = (Inl (ValueError (missing_message ''email'')), Map.empty)"
    by (simp add: cover_letter_main_def)
  with h1 h2 show ?thesis by blast
qed

section \<open>The cover letter: the lines of the letter\<close>

lemma str_replace_absent:
  "c \<notin> set s \<Longrightarrow> str_replace (c # old) new s = s"
proof (induction s)
  case Nil
  show ?case by (subst str_replace.simps) simp
next
  case (Cons x xs)
  then have "x \<noteq> c" and ih: "str_replace (c # old) new xs = xs" by auto
  then show ?case by (subst str_replace.simps) simp
qed

lemma ann_name_replaced:
  "str_replace ''$name'' ''Ann'' ann_template
     = ''Dear Hiring Manager,'' @ [newline, newline] @ ''Ann'' @ [newline, newline] @
       ''Sincerely,'' @ [newline] @ ''Ann''"
  by code_simp

lemma ann_substitute:
  "substitute (ann_data address phone email date position company) ann_template
     = ''Dear Hiring Manager,'' @ [newline, newline] @ ''Ann'' @ [newline, newline] @
       ''Sincerely,'' @ [newline] @ ''Ann''"
  by (simp add: substitute_def ann_data_def ann_name_replaced str_replace_absent newline_def)

lemma ann_split:
  "split newline (''Dear Hiring Manager,'' @ [newline, newline] @ ''Ann'' @ [newline, newline] @
       ''Sincerely,'' @ [newline] @ ''Ann'') = ann_lines"
  by code_simp

lemma strip_values:
  "strip [] = []" "strip ''Ann'' = ''Ann''" "strip ''Sincerely,'' = ''Sincerely,''"
  "strip ''Dear Hiring Manager,'' = ''Dear Hiring Manager,''"
  by code_simp+

lemma ann_is_signature:
  "is_signature (ann_data address phone email date position company) ann_lines ''Ann'' = Inr False"
  by (simp add: is_signature_def ann_data_def ann_lines_def dict_get_def list_getitem_def strip_values)

lemma ann_header_lines:
  "header_lines (ann_data address phone email date position company)
     = Inr [''Ann'', address, phone @ '' | '' @ email, date]"
  by (simp add: header_lines_def ann_data_def dict_get_def)

lemma add_line_blank: "add_line data lines [] doc = Inr doc"
  by (simp add: add_line_def strip_values)

lemma add_line_salutation:
  "add_line data lines ''Dear Hiring Manager,'' doc
     = Inr (doc @ [\<lparr>p_text = ''Dear Hiring Manager,'', p_style = ''Normal'', p_role = Salutation,
                      space_before = None, space_after = None\<rparr>])"
  by (simp add: add_line_def strip_values)

lemma add_line_closing:
  "add_line data lines ''Sincerely,'' doc
     = Inr (doc @ [\<lparr>p_text = ''Sincerely,'', p_style = ''Normal'', p_role = Closing,
                      space_before = Some 12, space_after = None\<rparr>])"
  by (simp add: add_line_def strip_values)

lemma add_line_ann:
  "add_line (ann_data address phone email date position company) ann_lines ''Ann'' doc
     = Inr (doc @ [\<lparr>p_text = ''Ann'', p_style = ''Normal'', p_role = HeaderLine,
                      space_before = None, space_after = Some 6\<rparr>])"
  by (simp add: add_line_def strip_values ann_is_signature ann_header_lines)

text \<open>
  Claim C4, as stated, fails: for the template and the name \<open>Ann\<close> the paragraphs are
  salutation, header line, closing, header line, not salutation, body, closing,
  signature name. Both lines \<open>Ann\<close> equal \<open>data['name']\<close>, and for both \<open>lines.index\<close>
  finds the first of them, at index 2, whose preceding line is blank.
\<close>

theorem ann_letter_counterexample:
  "build_letter (ann_data ''1 Main St'' ''555-0100'' ''ann@example.com'' ''May 24, 2025''
      ''Principal Software Engineer'' ''ACME'') ann_template
     = Inr [\<lparr>p_text = ''Dear Hiring Manager,'', p_style = ''Normal'', p_role = Salutation,
              space_before = None, space_after = None\<rparr>,
            \<lparr>p_text = ''Ann'', p_style = ''Normal'', p_role = HeaderLine,
              space_before = None, space_after = Some 6\<rparr>,
            \<lparr>p_text = ''Sincerely,'', p_style = ''Normal'', p_role = Closing,
              space_before = Some 12, space_after = None\<rparr>,
            \<lparr>p_text = ''Ann'', p_style = ''Normal'', p_role = HeaderLine,
              space_before = None, space_after = Some 6\<rparr>] \<and>
   [Salutation, HeaderLine, Closing, HeaderLine] \<noteq> [Salutation, Body, Closing, SignatureName]"
  by code_simp

text \<open>
  Claim C4, amended. For the template and the name \<open>Ann\<close>, whatever the other six
  values of the dict, the letter has four paragraphs with the texts
  \<open>Dear Hiring Manager,\<close>, \<open>Ann\<close>, \<open>Sincerely,\<close>, \<open>Ann\<close>. The first is the salutation, the
  third the closing. The first \<open>Ann\<close> is not the signature name, since the line before
  it is not \<open>Sincerely,\<close>; it equals \<open>data['name']\<close> and is a header line, with 6 points
  after it.
\<close>

theorem ann_letter_paragraphs:
  "\<exists>last_paragraph.
     build_letter (ann_data address phone email date position company) ann_template
       = Inr [\<lparr>p_text = ''Dear Hiring Manager,'', p_style = ''Normal'', p_role = Salutation,
                space_before = None, space_after = None\<rparr>,
              \<lparr>p_text = ''Ann'', p_style = ''Normal'', p_role = HeaderLine,
                space_before = None, space_after = Some 6\<rparr>,
              \<lparr>p_text = ''Sincerely,'', p_style = ''Normal'', p_role = Closing,
                space_before = Some 12, space_after = None\<rparr>,
              last_paragraph] \<and>
     p_text last_paragraph = ''Ann''"
proof -
  let ?data = "ann_data address phone email date position company"
  have lines: "split newline (substitute ?data ann_template) = ann_lines"
    by (simp only: ann_substitute ann_split)
  have "for_each (add_line ?data ann_lines)
          [''Dear Hiring Manager,'', [], ''Ann'', [], ''Sincerely,'', ''Ann''] []
       = Inr [\<lparr>p_text = ''Dear Hiring Manager,'', p_style = ''Normal'', p_role = Salutation,
                space_before = None, space_after = None\<rparr>,
              \<lparr>p_text = ''Ann'', p_style = ''Normal'', p_role = HeaderLine,
                space_before = None, space_after = Some 6\<rparr>,
              \<lparr>p_text = ''Sincerely,'', p_style = ''Normal'', p_role = Closing,
                space_before = Some 12, space_after = None\<rparr>,
              \<lparr>p_text = ''Ann'', p_style = ''Normal'', p_role = HeaderLine,
                space_before = None, space_after = Some 6\<rparr>]"
    by (simp add: add_line_blank add_line_salutation add_line_closing add_line_ann)
  then have "build_letter ?data ann_template
       = Inr [\<lparr>p_text = ''Dear Hiring Manager,'', p_style = ''Normal'', p_role = Salutation,
                space_before = None, space_after = None\<rparr>,
              \<lparr>p_text = ''Ann'', p_style = ''Normal'', p_role = HeaderLine,
                space_before = None, space_after = Some 6\<rparr>,
              \<lparr>p_text = ''Sincerely,'', p_style = ''Normal'', p_role = Closing,
                space_before = Some 12, space_after = None\<rparr>,
              \<lparr>p_text = ''Ann'', p_style = ''Normal'', p_role = HeaderLine,
                space_before = None, space_after = Some 6\<rparr>]"
    unfolding build_letter_def lines Let_def by (subst (2) ann_lines_def)
  then show ?thesis by simp
qed

end
